theory Spec2Isabelle
  imports Complex_Main "HOL-Library.Char_ord" "HOL-Library.List_Lexorder" "HOL-Library.AList"
begin

section \<open>Shared data: byte strings and Go slices\<close>

text \<open>
  A Go \<^verbatim>\<open>[]byte\<close> and a Go \<^verbatim>\<open>string\<close> are byte sequences; both are modelled as
  \<^typ>\<open>string\<close>, a list of 8-bit characters. A Go slice value is either \<^verbatim>\<open>nil\<close> or a
  (possibly empty) backing sequence; the two differ in what \<^verbatim>\<open>json.Marshal\<close> writes and
  in what a caller comparing with \<^verbatim>\<open>nil\<close> sees, so the model keeps them apart.
\<close>

type_synonym bytes = string

datatype 'a slice = NilSlice | Slice "'a list"

fun elems :: "'a slice \<Rightarrow> 'a list" where
  "elems NilSlice = []"
| "elems (Slice xs) = xs"

definition len :: "'a slice \<Rightarrow> nat" where
  "len s = length (elems s)"

text \<open>Go's built-in \<^verbatim>\<open>append(s, x)\<close>: the result is never \<^verbatim>\<open>nil\<close>.\<close>

definition append1 :: "'a slice \<Rightarrow> 'a \<Rightarrow> 'a slice" where
  "append1 s x = Slice (elems s @ [x])"

text \<open>
  Joining strings with commas and putting a string between double quotes, as the JSON
  encoder does for the elements of an array and for a string without characters to
  escape.
\<close>

fun join_commas :: "string list \<Rightarrow> string" where
  "join_commas [] = []"
| "join_commas [x] = x"
| "join_commas (x # y # ys) = x @ '','' @ join_commas (y # ys)"

definition quoted :: "string \<Rightarrow> string" where
  "quoted s = CHR 0x22 # s @ [CHR 0x22]"

section \<open>internal/compress/zstd.go\<close>

text \<open>
  \<^verbatim>\<open>Compress\<close> and \<^verbatim>\<open>Decompress\<close> wrap the encoder and decoder of the zstd library,
  which is not part of this repository: \<^verbatim>\<open>enc.EncodeAll(data, dst)\<close> and
  \<^verbatim>\<open>dec.DecodeAll(data, nil)\<close> are parameters of the model. \<open>EncodeAll\<close> gives the
  bytes of the frame appended to the empty, non-nil \<open>dst\<close>; \<open>DecodeAll\<close> gives the
  decoded slice or the library's error.
\<close>

datatype 'e zstd_error = DecompressionFailed 'e

definition Compress :: "(bytes \<Rightarrow> bytes) \<Rightarrow> char slice \<Rightarrow> char slice" where
  "Compress EncodeAll data =
     (if len data = 0 then NilSlice
      else Slice (EncodeAll (elems data)))"

definition Decompress ::
  "(bytes \<Rightarrow> 'e + char slice) \<Rightarrow> char slice \<Rightarrow> 'e zstd_error + char slice" where
  "Decompress DecodeAll data =
     (if len data = 0 then Inr NilSlice
      else (case DecodeAll (elems data) of
              Inl err \<Rightarrow> Inl (DecompressionFailed err)
            | Inr result \<Rightarrow> Inr result))"

text \<open>
  A small framing codec, used to run the wrappers on concrete bytes: a frame is the
  payload behind a one-byte magic number, and a frame without the magic number is
  rejected.
\<close>

definition frame_encode :: "bytes \<Rightarrow> bytes" where
  "frame_encode d = CHR ''Z'' # d"

fun frame_decode :: "bytes \<Rightarrow> string + char slice" where
  "frame_decode [] = Inr NilSlice"
| "frame_decode (c # cs) = (if c = CHR ''Z'' then Inr (Slice cs) else Inl ''magic number mismatch'')"

section \<open>Repository.GetTracesFiltered: the ORDER BY clause\<close>

text \<open>
  The map literal \<^verbatim>\<open>validSorts\<close> and the computation of \<^verbatim>\<open>orderClause\<close>
  (the string handed to \<^verbatim>\<open>query.Order\<close>). \<^verbatim>\<open>fmt.Sprintf("%s %s", field, direction)\<close>
  joins the two strings with one space.
\<close>

definition validSorts :: "string \<rightharpoonup> string" where
  "validSorts =
     [''timestamp'' \<mapsto> ''timestamp'',
      ''duration'' \<mapsto> ''duration'',
      ''service_name'' \<mapsto> ''service_name'',
      ''status'' \<mapsto> ''status'',
      ''trace_id'' \<mapsto> ''trace_id'']"

definition orderClause :: "string \<Rightarrow> string \<Rightarrow> string" where
  "orderClause sortBy orderBy =
     (if sortBy \<noteq> '''' then
        (let direction = (if orderBy = ''desc'' then ''DESC'' else ''ASC'') in
           (case validSorts sortBy of
              Some field \<Rightarrow> field @ '' '' @ direction
            | None \<Rightarrow> ''timestamp DESC''))
      else ''timestamp DESC'')"

text \<open>The five field names of the whitelist, and the ten clauses they can produce.\<close>

definition sortFields :: "string set" where
  "sortFields = {''timestamp'', ''duration'', ''service_name'', ''status'', ''trace_id''}"

definition orderClauses :: "string set" where
  "orderClauses =
     {''timestamp DESC'', ''timestamp ASC'', ''duration DESC'', ''duration ASC'',
      ''service_name DESC'', ''service_name ASC'', ''status DESC'', ''status ASC'',
      ''trace_id DESC'', ''trace_id ASC''}"

section \<open>internal/realtime/hub.go\<close>

subsection \<open>Channels\<close>

text \<open>
  A buffered Go channel: the values waiting in it, its capacity, and whether
  \<^verbatim>\<open>close\<close> has been called on it. \<^verbatim>\<open>make(chan T, n)\<close> is \<open>make_chan n\<close>.
\<close>

record 'a chan =
  queue :: "'a list"
  cap :: nat
  closed :: bool

definition make_chan :: "nat \<Rightarrow> 'a chan" where
  "make_chan n = \<lparr>queue = [], cap = n, closed = False\<rparr>"

text \<open>
  The statement \<^verbatim>\<open>select { case ch <- v: ... default: ... }\<close>: the send is taken when
  the buffer has room, the default branch otherwise; a send on a closed channel panics.
\<close>

datatype 'a select_send = Sent "'a chan" | Default | SendOnClosed

definition select_send :: "'a chan \<Rightarrow> 'a \<Rightarrow> 'a select_send" where
  "select_send ch v =
     (if closed ch then SendOnClosed
      else if length (queue ch) < cap ch then Sent (ch\<lparr>queue := queue ch @ [v]\<rparr>)
      else Default)"

subsection \<open>The hub and its clients\<close>

record LogEntry =
  le_ID :: nat
  le_TraceID :: string
  le_SpanID :: string
  le_Severity :: string
  le_Body :: string
  le_ServiceName :: string
  le_AttributesJSON :: string
  le_AIInsight :: string
  le_Timestamp :: int

text \<open>
  A \<^verbatim>\<open>*client\<close> is an address; \<open>heap\<close> gives the client object behind it: the state
  of its WebSocket connection and its \<^verbatim>\<open>send\<close> channel. The object outlives its entry
  in \<^verbatim>\<open>h.clients\<close>, since the connection's writer goroutine keeps the pointer.
\<close>

type_synonym addr = nat

datatype conn_state = ConnOpen | ConnClosed nat string

record client =
  conn :: conn_state
  send :: "bytes chan"

text \<open>
  The fields of \<^verbatim>\<open>Hub\<close>. \<open>clients\<close> holds the keys of the map \<^verbatim>\<open>h.clients\<close> in the
  order a \<^verbatim>\<open>range\<close> visits them (Go leaves that order open). The unbuffered channels
  \<^verbatim>\<open>register\<close> and \<^verbatim>\<open>unregister\<close> hold nothing; a value passing through them is an
  event of the run loop. \<open>stopCh_closed\<close> says whether \<^verbatim>\<open>stopCh\<close> has been closed.
  \<open>onConnectionChange\<close> says whether the callback is non-nil, and \<open>gauge\<close> lists the
  arguments it has been called with.
\<close>

record Hub =
  clients :: "addr list"
  broadcast :: "LogEntry chan"
  buffer :: "LogEntry list"
  maxBufferSize :: nat
  flushInterval :: nat
  stopCh_closed :: bool
  onConnectionChange :: bool
  gauge :: "nat list"
  heap :: "addr \<Rightarrow> client"

text \<open>\<^verbatim>\<open>NewHub\<close>; \<open>mem\<close> is the memory the hub will find client objects in.\<close>

definition NewHub :: "bool \<Rightarrow> (addr \<Rightarrow> client) \<Rightarrow> Hub" where
  "NewHub cb mem =
     \<lparr>clients = [],
      broadcast = make_chan 5000,
      buffer = [],
      maxBufferSize = 100,
      flushInterval = 500,
      stopCh_closed = False,
      onConnectionChange = cb,
      gauge = [],
      heap = mem\<rparr>"

text \<open>
  The client object \<^verbatim>\<open>HandleWebSocket\<close> allocates for an accepted connection, and the
  status code \<^verbatim>\<open>websocket.StatusNormalClosure\<close>.
\<close>

definition new_client :: client where
  "new_client = \<lparr>conn = ConnOpen, send = make_chan 256\<rparr>"

definition StatusNormalClosure :: nat where
  "StatusNormalClosure = 1000"

text \<open>The guarded call \<^verbatim>\<open>h.onConnectionChange(len(h.clients))\<close>.\<close>

definition notify :: "Hub \<Rightarrow> Hub" where
  "notify h =
     (if onConnectionChange h then h\<lparr>gauge := gauge h @ [length (clients h)]\<rparr> else h)"

text \<open>\<^verbatim>\<open>delete(h.clients, c); close(c.send)\<close> followed by the guarded callback.\<close>

definition drop_client :: "addr \<Rightarrow> Hub \<Rightarrow> Hub" where
  "drop_client c h =
     notify (h\<lparr>clients := removeAll c (clients h),
               heap := (heap h)(c := (heap h c)\<lparr>send := (send (heap h c))\<lparr>closed := True\<rparr>\<rparr>)\<rparr>)"

subsection \<open>flush and Broadcast\<close>

text \<open>
  The loop \<^verbatim>\<open>for c := range h.clients\<close> of \<^verbatim>\<open>flush\<close>, over the keys still to visit.
  \<open>None\<close> is a panic (a send on a closed channel). In the default branch the channel
  was just seen open, so \<^verbatim>\<open>close(c.send)\<close> cannot panic.
\<close>

fun flush_clients :: "bytes \<Rightarrow> addr list \<Rightarrow> Hub \<Rightarrow> Hub option" where
  "flush_clients data [] h = Some h"
| "flush_clients data (c # cs) h =
     (case select_send (send (heap h c)) data of
        Sent ch \<Rightarrow> flush_clients data cs (h\<lparr>heap := (heap h)(c := (heap h c)\<lparr>send := ch\<rparr>)\<rparr>)
      | Default \<Rightarrow> flush_clients data cs (drop_client c h)
      | SendOnClosed \<Rightarrow> None)"

text \<open>
  \<^verbatim>\<open>flush\<close>. \<^verbatim>\<open>json.Marshal\<close> belongs to the standard library and is the parameter
  \<open>marshal\<close>; \<open>None\<close> is its error. The buffer is swapped for an empty one before the
  batch is marshalled.
\<close>

definition flush :: "(LogEntry list \<Rightarrow> bytes option) \<Rightarrow> Hub \<Rightarrow> Hub option" where
  "flush marshal h =
     (if length (buffer h) = 0 then Some h
      else (let batch = buffer h; h1 = h\<lparr>buffer := []\<rparr> in
              (case marshal batch of
                 None \<Rightarrow> Some h1
               | Some data \<Rightarrow> flush_clients data (clients h1) h1)))"

text \<open>\<^verbatim>\<open>Broadcast\<close>: a non-blocking send on \<^verbatim>\<open>h.broadcast\<close>.\<close>

definition Broadcast :: "LogEntry \<Rightarrow> Hub \<Rightarrow> Hub option" where
  "Broadcast entry h =
     (case select_send (broadcast h) entry of
        Sent ch \<Rightarrow> Some (h\<lparr>broadcast := ch\<rparr>)
      | Default \<Rightarrow> Some h
      | SendOnClosed \<Rightarrow> None)"

text \<open>\<^verbatim>\<open>Stop\<close> closes \<^verbatim>\<open>stopCh\<close> (closing it twice panics) and then waits for \<^verbatim>\<open>Run\<close>.\<close>

definition Stop :: "Hub \<Rightarrow> Hub option" where
  "Stop h = (if stopCh_closed h then None else Some (h\<lparr>stopCh_closed := True\<rparr>))"

subsection \<open>The run loop\<close>

text \<open>
  One event is one case of the \<^verbatim>\<open>select\<close> in \<^verbatim>\<open>Run\<close> being taken. A case that is not
  ready (\<^verbatim>\<open>stopCh\<close> still open, nothing waiting in \<^verbatim>\<open>broadcast\<close>) cannot be taken: the
  loop stays where it is. The outcome of an iteration is to go round again, to return, or
  to panic.
\<close>

datatype event = StopCh | Register addr | Unregister addr | BroadcastRecv | Tick

datatype outcome = Continue Hub | Return Hub | Panic

fun Run_select :: "(LogEntry list \<Rightarrow> bytes option) \<Rightarrow> event \<Rightarrow> Hub \<Rightarrow> outcome" where
  "Run_select marshal StopCh h =
     (if stopCh_closed h then
        (case flush marshal h of Some h' \<Rightarrow> Return h' | None \<Rightarrow> Panic)
      else Continue h)"
| "Run_select marshal (Register c) h =
     Continue (notify (h\<lparr>clients := List.insert c (clients h)\<rparr>))"
| "Run_select marshal (Unregister c) h =
     (if c \<in> set (clients h) then
        (if closed (send (heap h c)) then Panic else Continue (drop_client c h))
      else Continue h)"
| "Run_select marshal BroadcastRecv h =
     (case queue (broadcast h) of
        [] \<Rightarrow> Continue h
      | entry # rest \<Rightarrow>
          (let h1 = h\<lparr>broadcast := (broadcast h)\<lparr>queue := rest\<rparr>, buffer := buffer h @ [entry]\<rparr>;
               shouldFlush = (length (buffer h1) \<ge> maxBufferSize h1)
           in if shouldFlush then
                (case flush marshal h1 of Some h' \<Rightarrow> Continue h' | None \<Rightarrow> Panic)
              else Continue h1))"
| "Run_select marshal Tick h =
     (case flush marshal h of Some h' \<Rightarrow> Continue h' | None \<Rightarrow> Panic)"

text \<open>
  \<^verbatim>\<open>Run\<close> over the events the scheduler delivers, in order. After \<open>Return\<close> the
  goroutine is gone and the rest of the events finds no loop to handle them.
\<close>

fun Run :: "(LogEntry list \<Rightarrow> bytes option) \<Rightarrow> event list \<Rightarrow> Hub \<Rightarrow> outcome" where
  "Run marshal [] h = Continue h"
| "Run marshal (ev # evs) h =
     (case Run_select marshal ev h of
        Continue h' \<Rightarrow> Run marshal evs h'
      | Return h' \<Rightarrow> Return h'
      | Panic \<Rightarrow> Panic)"

text \<open>\<^verbatim>\<open>Stop()\<close> is called and the run loop then meets the events \<open>evs\<close>.\<close>

definition Stop_then_Run ::
  "(LogEntry list \<Rightarrow> bytes option) \<Rightarrow> event list \<Rightarrow> Hub \<Rightarrow> outcome" where
  "Stop_then_Run marshal evs h =
     (case Stop h of None \<Rightarrow> Panic | Some hs \<Rightarrow> Run marshal evs hs)"

text \<open>
  What holds of the hub at the head of every iteration: \<^verbatim>\<open>h.clients\<close> has each key
  once, a registered client's \<^verbatim>\<open>send\<close> channel is open (it is closed in the same step
  that deletes the key), \<^verbatim>\<open>broadcast\<close> is the open channel of capacity 5000 that
  \<^verbatim>\<open>NewHub\<close> made, and the buffer is below \<^verbatim>\<open>maxBufferSize\<close>, which is 100.
\<close>

definition clients_inv :: "Hub \<Rightarrow> bool" where
  "clients_inv h \<longleftrightarrow>
     distinct (clients h) \<and> list_all (\<lambda>c. \<not> closed (send (heap h c))) (clients h)"

definition hub_inv :: "Hub \<Rightarrow> bool" where
  "hub_inv h \<longleftrightarrow>
     clients_inv h
     \<and> \<not> closed (broadcast h) \<and> cap (broadcast h) = 5000
     \<and> maxBufferSize h = 100 \<and> length (buffer h) < 100"

text \<open>A client's \<^verbatim>\<open>send\<close> channel has no room left.\<close>

definition chan_full :: "Hub \<Rightarrow> addr \<Rightarrow> bool" where
  "chan_full h c \<longleftrightarrow> cap (send (heap h c)) \<le> length (queue (send (heap h c)))"

text \<open>
  The client object after \<open>data\<close> has gone into its \<^verbatim>\<open>send\<close> channel, and after
  the channel has been closed; the messages waiting for a client, the state of its
  connection, and whether its channel is closed.
\<close>

definition sent_to :: "bytes \<Rightarrow> client \<Rightarrow> client" where
  "sent_to data cl = cl\<lparr>send := (send cl)\<lparr>queue := queue (send cl) @ [data]\<rparr>\<rparr>"

definition shut :: "client \<Rightarrow> client" where
  "shut cl = cl\<lparr>send := (send cl)\<lparr>closed := True\<rparr>\<rparr>"

definition inbox :: "addr \<Rightarrow> Hub \<Rightarrow> bytes list" where
  "inbox c h = queue (send (heap h c))"

definition conn_of :: "addr \<Rightarrow> Hub \<Rightarrow> conn_state" where
  "conn_of c h = conn (heap h c)"

definition send_closed :: "addr \<Rightarrow> Hub \<Rightarrow> bool" where
  "send_closed c h = closed (send (heap h c))"

text \<open>The hub an outcome leaves behind, if the loop did not panic.\<close>

fun hub_of :: "outcome \<Rightarrow> Hub option" where
  "hub_of (Continue h) = Some h"
| "hub_of (Return h) = Some h"
| "hub_of Panic = None"

fun returned :: "outcome \<Rightarrow> bool" where
  "returned (Return h) = True"
| "returned (Continue h) = False"
| "returned Panic = False"

text \<open>
  What the writer goroutine started by \<^verbatim>\<open>HandleWebSocket\<close> does next, as far as its
  client object decides it: \<^verbatim>\<open>for msg := range c.send\<close> takes the next message and
  writes it to the connection, waits while the channel is empty and open, and ends when
  the channel is empty and closed. Only then (or after a failed write) does the deferred
  function run, which hands the client to \<^verbatim>\<open>h.unregister\<close> and afterwards calls
  \<^verbatim>\<open>conn.Close(websocket.StatusNormalClosure, "closing")\<close>.
\<close>

datatype writer_action = Writes bytes | Waits | Leaves

definition writer_next :: "client \<Rightarrow> writer_action" where
  "writer_next cl =
     (case queue (send cl) of
        msg # rest \<Rightarrow> Writes msg
      | [] \<Rightarrow> (if closed (send cl) then Leaves else Waits))"

definition writer_of :: "addr \<Rightarrow> Hub \<Rightarrow> writer_action" where
  "writer_of c h = writer_next (heap h c)"

text \<open>
  A stand-in for \<^verbatim>\<open>json.Marshal\<close> on concrete batches: the bodies of the entries as a
  JSON array of strings (bodies are taken to need no escaping). It never fails.
\<close>

definition marshal_bodies :: "LogEntry list \<Rightarrow> bytes option" where
  "marshal_bodies es = Some (''['' @ join_commas (map (\<lambda>e. quoted (le_Body e)) es) @ '']'')"

definition entry :: "string \<Rightarrow> LogEntry" where
  "entry b =
     \<lparr>le_ID = 0, le_TraceID = [], le_SpanID = [], le_Severity = ''INFO'', le_Body = b,
      le_ServiceName = ''order'', le_AttributesJSON = ''{}'', le_AIInsight = [],
      le_Timestamp = 0\<rparr>"


text \<open>
  Concrete hubs. \<open>hub_two\<close> has one buffered entry and two clients: client 1 with an
  empty \<^verbatim>\<open>send\<close> channel and client 2 with 256 messages waiting, which is all its
  channel holds. \<open>hub_idle\<close> has client 1 and nothing buffered. \<open>hub_99\<close> has 99
  entries buffered and one more waiting in \<^verbatim>\<open>broadcast\<close>. \<open>hub_full\<close> has 5000 entries
  waiting in \<^verbatim>\<open>broadcast\<close>.
\<close>

definition slow_client :: client where
  "slow_client = new_client\<lparr>send := (make_chan 256)\<lparr>queue := replicate 256 ''[]''\<rparr>\<rparr>"

definition hub_two :: Hub where
  "hub_two = (NewHub False ((\<lambda>a. new_client)(2 := slow_client)))
               \<lparr>clients := [1, 2], buffer := [entry ''a'']\<rparr>"

definition hub_idle :: Hub where
  "hub_idle = (NewHub False (\<lambda>a. new_client))\<lparr>clients := [1]\<rparr>"


definition hub_full :: Hub where
  "hub_full = (NewHub False (\<lambda>a. new_client))
                \<lparr>broadcast := (make_chan 5000)\<lparr>queue := replicate 5000 (entry ''x'')\<rparr>\<rparr>"

section \<open>The dead-letter queue (package queue)\<close>

subsection \<open>Formatting and path helpers of the standard library\<close>







subsection \<open>The DLQ directory\<close>









subsection \<open>Enqueue\<close>




text \<open>
  JSON values and the compact text \<^verbatim>\<open>json.Marshal\<close> writes for them (strings are taken
  to need no escaping). \<open>marshal_json\<close> is \<^verbatim>\<open>json.Marshal\<close> for a batch that is such a
  value; it has no error.
\<close>

datatype json = JNull | JBool bool | JNum int | JStr string | JArr "json list"
  | JObj "(string \<times> json) list"




subsection \<open>processFiles\<close>













section \<open>Repository queries (package storage)\<close>

subsection \<open>Tables and the store\<close>

text \<open>
  A \<^verbatim>\<open>time.Time\<close> is modelled by its nanoseconds since the Unix epoch; \<open>zero_time\<close> is
  Go's zero time, January 1 of year 1, which is what \<^verbatim>\<open>IsZero\<close> tests for.
\<close>

type_synonym time = int

definition zero_time :: time where
  "zero_time = - 62135596800000000000"

definition IsZero :: "time \<Rightarrow> bool" where
  "IsZero t \<longleftrightarrow> t = zero_time"

text \<open>
  Modelled from the spec: the declarations of the structs \<^verbatim>\<open>Trace\<close>, \<open>Log\<close> and \<open>Span\<close>
  and of \<^verbatim>\<open>Repository\<close> are not among the sources. The records below hold the columns
  the data model of the specification names; durations are microseconds.
\<close>

record Trace =
  tr_TraceID :: string
  tr_ServiceName :: string
  tr_Operation :: string
  tr_Status :: string
  tr_Duration :: int
  tr_Timestamp :: time

record Span =
  sp_SpanID :: string
  sp_ParentSpanID :: string
  sp_TraceID :: string
  sp_ServiceName :: string
  sp_OperationName :: string
  sp_Duration :: int
  sp_Status :: string

record Log =
  lg_TraceID :: string
  lg_SpanID :: string
  lg_Severity :: string
  lg_Body :: string
  lg_ServiceName :: string
  lg_Timestamp :: time

text \<open>
  The database behind \<^verbatim>\<open>r.db\<close>: its three tables, and the queries that come back with
  an error. Each query of the functions below has a name. A query is evaluated on the
  rows in table order; where SQL leaves the order of the result open (groups, ties of an
  \<^verbatim>\<open>ORDER BY\<close>) the model keeps the order of first appearance. \<^verbatim>\<open>LIKE '%ERROR%'\<close> is
  taken as the substring test that \<^verbatim>\<open>strings.Contains\<close> is. Values of type
  \<^verbatim>\<open>float64\<close> are modelled by the real numbers they stand for, without rounding error,
  and \<^verbatim>\<open>int64\<close> by integers without overflow.
\<close>

datatype query =
  CountTraces | CountLogs | CountErrors | AvgDuration | CountServices | Durations
  | TopFailing | TrafficRows | NodeRows | SpanRows | TraceInfos

record database =
  traces :: "Trace list"
  spans :: "Span list"
  logs :: "Log list"
  failing :: "query set"

datatype db_error = QueryFailed query

fun Contains :: "string \<Rightarrow> string \<Rightarrow> bool" where
  "Contains [] sub = (sub = [])"
| "Contains (c # cs) sub = (take (length sub) (c # cs) = sub \<or> Contains cs sub)"

text \<open>\<^verbatim>\<open>timestamp BETWEEN ? AND ?\<close>, and the optional clause \<^verbatim>\<open>service_name IN ?\<close>.\<close>

definition between :: "time \<Rightarrow> time \<Rightarrow> time \<Rightarrow> bool" where
  "between start end t \<longleftrightarrow> start \<le> t \<and> t \<le> end"

definition in_services :: "string list \<Rightarrow> string \<Rightarrow> bool" where
  "in_services serviceNames name \<longleftrightarrow> length serviceNames = 0 \<or> name \<in> set serviceNames"

text \<open>\<^verbatim>\<open>math.Round\<close>: to the nearest integer, halves away from zero.\<close>

definition Round :: "real \<Rightarrow> real" where
  "Round x = (if 0 \<le> x then of_int \<lfloor>x + 1 / 2\<rfloor> else - of_int \<lfloor>- x + 1 / 2\<rfloor>)"

text \<open>
  How \<^verbatim>\<open>encoding/json\<close> writes a slice, given the encoding of its elements: \<^verbatim>\<open>null\<close> for
  a nil slice, an array otherwise.
\<close>

definition slice_json :: "('a \<Rightarrow> json) \<Rightarrow> 'a slice \<Rightarrow> json" where
  "slice_json enc s = (case s of NilSlice \<Rightarrow> JNull | Slice xs \<Rightarrow> JArr (map enc xs))"

subsection \<open>GetTrafficMetrics\<close>

record TrafficPoint =
  tp_Timestamp :: time
  tp_Count :: int
  tp_ErrorCount :: int

text \<open>
  The loop over the rows: \<open>ts\<close> is \<^verbatim>\<open>r.Timestamp.Truncate(time.Minute).Unix()\<close>, the
  map \<^verbatim>\<open>buckets\<close> is a list of keys with their counters.
\<close>

definition add_row :: "(int \<times> int \<times> int) list \<Rightarrow> time \<times> string \<Rightarrow> (int \<times> int \<times> int) list" where
  "add_row buckets r =
     (let ts = (fst r div 60000000000) * 60;
          b = (case map_of buckets ts of None \<Rightarrow> (0, 0) | Some b \<Rightarrow> b)
      in AList.update ts
           (fst b + 1, snd b + (if Contains (snd r) ''ERROR'' then 1 else 0)) buckets)"

definition bucket_point :: "int \<times> int \<times> int \<Rightarrow> TrafficPoint" where
  "bucket_point b =
     \<lparr>tp_Timestamp = fst b * 1000000000, tp_Count = fst (snd b), tp_ErrorCount = snd (snd b)\<rparr>"

text \<open>\<^verbatim>\<open>sort.Slice\<close> by timestamp; the keys of a map are distinct, so no ties arise.\<close>

definition sort_points :: "TrafficPoint slice \<Rightarrow> TrafficPoint slice" where
  "sort_points s = (case s of NilSlice \<Rightarrow> NilSlice | Slice ps \<Rightarrow> Slice (sort_key tp_Timestamp ps))"

definition GetTrafficMetrics ::
  "database \<Rightarrow> time \<Rightarrow> time \<Rightarrow> string list \<Rightarrow> db_error + TrafficPoint slice" where
  "GetTrafficMetrics db start end serviceNames =
     (if TrafficRows \<in> failing db then Inl (QueryFailed TrafficRows)
      else
        (let rows = map (\<lambda>t. (tr_Timestamp t, tr_Status t))
                      (filter (\<lambda>t. between start end (tr_Timestamp t)
                                  \<and> in_services serviceNames (tr_ServiceName t)) (traces db));
             buckets = foldl add_row [] rows;
             points = foldl (\<lambda>ps b. append1 ps (bucket_point b)) NilSlice buckets
         in Inr (sort_points points)))"

subsection \<open>GetDashboardStats\<close>

record ServiceError =
  se_ServiceName :: string
  se_ErrorCount :: int
  se_TotalCount :: int
  se_ErrorRate :: real

record DashboardStats =
  ds_TotalTraces :: int
  ds_TotalLogs :: int
  ds_TotalErrors :: int
  ds_AvgLatencyMs :: real
  ds_ErrorRate :: real
  ds_ActiveServices :: int
  ds_P99Latency :: int
  ds_TopFailingServices :: "ServiceError slice"

text \<open>The zero value of \<^verbatim>\<open>DashboardStats\<close>, which \<^verbatim>\<open>var stats DashboardStats\<close> starts from.\<close>

definition zero_stats :: DashboardStats where
  "zero_stats =
     \<lparr>ds_TotalTraces = 0, ds_TotalLogs = 0, ds_TotalErrors = 0, ds_AvgLatencyMs = 0,
      ds_ErrorRate = 0, ds_ActiveServices = 0, ds_P99Latency = 0,
      ds_TopFailingServices = NilSlice\<rparr>"

definition is_error :: "Trace \<Rightarrow> bool" where
  "is_error t \<longleftrightarrow> Contains (tr_Status t) ''ERROR''"

text \<open>\<^verbatim>\<open>COALESCE(AVG(duration), 0)\<close>.\<close>

definition avg_duration :: "Trace list \<Rightarrow> real" where
  "avg_duration ts =
     (if ts = [] then 0 else real_of_int (sum_list (map tr_Duration ts)) / real (length ts))"

text \<open>
  The index of the 99th percentile in the sorted durations:
  \<^verbatim>\<open>int(math.Ceil(float64(len(durations))*0.99)) - 1\<close>, clamped to the slice.
\<close>

definition p99Index :: "int \<Rightarrow> int" where
  "p99Index n =
     (let i = \<lceil>real_of_int n * 99 / 100\<rceil> - 1;
          i = (if i \<ge> n then n - 1 else i)
      in if i < 0 then 0 else i)"

text \<open>
  The grouped query for the failing services: per service its rows and its error rows,
  the groups with errors only, by \<^verbatim>\<open>error_count DESC\<close>, five at most.
\<close>

definition svcCounts :: "Trace list \<Rightarrow> (string \<times> int \<times> int) list" where
  "svcCounts base =
     take 5
       (rev (sort_key (\<lambda>g. fst (snd g))
          (rev (filter (\<lambda>g. fst (snd g) > 0)
             (map (\<lambda>name.
                     (name,
                      int (length (filter (\<lambda>t. tr_ServiceName t = name \<and> is_error t) base)),
                      int (length (filter (\<lambda>t. tr_ServiceName t = name) base))))
                (remdups (map tr_ServiceName base)))))))"

definition service_error :: "string \<times> int \<times> int \<Rightarrow> ServiceError" where
  "service_error sc =
     \<lparr>se_ServiceName = fst sc, se_ErrorCount = fst (snd sc), se_TotalCount = snd (snd sc),
      se_ErrorRate = (if snd (snd sc) > 0
                      then real_of_int (fst (snd sc)) / real_of_int (snd (snd sc)) else 0)\<rparr>"

definition GetDashboardStats ::
  "database \<Rightarrow> time \<Rightarrow> time \<Rightarrow> string list \<Rightarrow> db_error + DashboardStats" where
  "GetDashboardStats db start end serviceNames =
     (let base = filter (\<lambda>t. between start end (tr_Timestamp t)
                           \<and> in_services serviceNames (tr_ServiceName t)) (traces db);
          logRows = filter (\<lambda>l. between start end (lg_Timestamp l)
                              \<and> in_services serviceNames (lg_ServiceName l)) (logs db)
      in
      if CountTraces \<in> failing db then Inl (QueryFailed CountTraces)
      else if CountLogs \<in> failing db then Inl (QueryFailed CountLogs)
      else if CountErrors \<in> failing db then Inl (QueryFailed CountErrors)
      else
        (let stats = zero_stats\<lparr>ds_TotalTraces := int (length base),
                                 ds_TotalLogs := int (length logRows),
                                 ds_TotalErrors := int (length (filter is_error base))\<rparr>;
             stats = (if ds_TotalTraces stats > 0
                      then stats\<lparr>ds_ErrorRate :=
                             real_of_int (ds_TotalErrors stats) / real_of_int (ds_TotalTraces stats) * 100\<rparr>
                      else stats);
             stats = (if AvgDuration \<in> failing db then stats
                      else stats\<lparr>ds_AvgLatencyMs := avg_duration base / 1000\<rparr>)
         in
         if CountServices \<in> failing db then Inl (QueryFailed CountServices)
         else
           (let stats = stats\<lparr>ds_ActiveServices := int (length (remdups (map tr_ServiceName base)))\<rparr>
            in
            if Durations \<in> failing db then Inl (QueryFailed Durations)
            else
              (let durations = sort (map tr_Duration base);
                   stats = (if length durations > 0
                            then stats\<lparr>ds_P99Latency :=
                                   durations ! nat (p99Index (int (length durations)))\<rparr>
                            else stats);
                   stats = (if TopFailing \<in> failing db then stats
                            else stats\<lparr>ds_TopFailingServices :=
                                   foldl (\<lambda>s sc. append1 s (service_error sc))
                                     (ds_TopFailingServices stats) (svcCounts base)\<rparr>)
               in Inr stats))))"

subsection \<open>GetServiceMapMetrics\<close>

record ServiceMapNode =
  n_Name :: string
  n_TotalTraces :: int
  n_ErrorCount :: int
  n_AvgLatencyMs :: real

record ServiceMapEdge =
  e_Source :: string
  e_Target :: string
  e_CallCount :: int
  e_AvgLatencyMs :: real
  e_ErrorRate :: real

record ServiceMapMetrics =
  Nodes :: "ServiceMapNode slice"
  Edges :: "ServiceMapEdge slice"

text \<open>The optional window: applied only when neither bound is the zero time.\<close>

definition in_window :: "time \<Rightarrow> time \<Rightarrow> time \<Rightarrow> bool" where
  "in_window start end t \<longleftrightarrow> (\<not> IsZero start \<and> \<not> IsZero end \<longrightarrow> between start end t)"

text \<open>The rows of the grouped node query, and the node made of a row.\<close>

definition nodeRows :: "Trace list \<Rightarrow> (string \<times> int \<times> int \<times> real) list" where
  "nodeRows ts =
     map (\<lambda>name.
            (name,
             int (length (filter (\<lambda>t. tr_ServiceName t = name) ts)),
             int (length (filter (\<lambda>t. tr_ServiceName t = name \<and> is_error t) ts)),
             avg_duration (filter (\<lambda>t. tr_ServiceName t = name) ts)))
       (remdups (map tr_ServiceName ts))"

definition node_of :: "string \<times> int \<times> int \<times> real \<Rightarrow> ServiceMapNode" where
  "node_of nr =
     \<lparr>n_Name = fst nr, n_TotalTraces = fst (snd nr), n_ErrorCount = fst (snd (snd nr)),
      n_AvgLatencyMs = Round (snd (snd (snd nr)) / 1000 * 100) / 100\<rparr>"

text \<open>
  The struct \<^verbatim>\<open>traceInfo\<close>, the per-service counters kept for a trace, and the loop that
  fills \<^verbatim>\<open>traceServiceMap\<close>: a map from trace id to a map from service name to
  counters, each map a list of keys with their values. The counters are the fields
  \<^verbatim>\<open>count\<close>, \<^verbatim>\<open>errors\<close> and \<^verbatim>\<open>totalD\<close> of the anonymous struct; those of an edge,
  further down, are \<^verbatim>\<open>calls\<close>, \<^verbatim>\<open>errors\<close> and \<^verbatim>\<open>totalMs\<close>.
\<close>

record traceInfo =
  ti_TraceID :: string
  ti_ServiceName :: string
  ti_Status :: string
  ti_Duration :: int

record svc_agg =
  sa_count :: int
  sa_errors :: int
  sa_totalD :: int

definition zero_svc :: svc_agg where
  "zero_svc = \<lparr>sa_count = 0, sa_errors = 0, sa_totalD = 0\<rparr>"

definition add_info ::
  "(string \<times> (string \<times> svc_agg) list) list \<Rightarrow> traceInfo \<Rightarrow> (string \<times> (string \<times> svc_agg) list) list" where
  "add_info m ti =
     (if ti_ServiceName ti = '''' then m
      else
        (let services = (case map_of m (ti_TraceID ti) of None \<Rightarrow> [] | Some sv \<Rightarrow> sv);
             entry = (case map_of services (ti_ServiceName ti) of None \<Rightarrow> zero_svc | Some e \<Rightarrow> e);
             entry = entry\<lparr>sa_count := sa_count entry + 1\<rparr>;
             entry = (if Contains (ti_Status ti) ''ERROR''
                      then entry\<lparr>sa_errors := sa_errors entry + 1\<rparr> else entry);
             entry = entry\<lparr>sa_totalD := sa_totalD entry + ti_Duration ti\<rparr>
         in AList.update (ti_TraceID ti) (AList.update (ti_ServiceName ti) entry services) m))"

definition traceServiceMap :: "traceInfo list \<Rightarrow> (string \<times> (string \<times> svc_agg) list) list" where
  "traceServiceMap traceInfos = foldl add_info [] traceInfos"

text \<open>
  The two nested index loops \<^verbatim>\<open>for i ... for j := i + 1 ...\<close> visit these pairs of a
  list, in this order.
\<close>

fun pairs :: "'a list \<Rightarrow> ('a \<times> 'a) list" where
  "pairs [] = []"
| "pairs (x # xs) = map (Pair x) xs @ pairs xs"

record edge_agg =
  ea_calls :: int
  ea_errors :: int
  ea_totalMs :: real

definition zero_edge :: edge_agg where
  "zero_edge = \<lparr>ea_calls = 0, ea_errors = 0, ea_totalMs = 0\<rparr>"

text \<open>
  The body of the inner loop for the pair \<open>key\<close>. A service missing from \<open>services\<close>
  would read as the zero value, as a Go map gives it.
\<close>

definition add_pair ::
  "(string \<times> svc_agg) list \<Rightarrow> ((string \<times> string) \<times> edge_agg) list \<Rightarrow> string \<times> string
     \<Rightarrow> ((string \<times> string) \<times> edge_agg) list" where
  "add_pair services edgeAgg key =
     (let entry = (case map_of edgeAgg key of None \<Rightarrow> zero_edge | Some e \<Rightarrow> e);
          entry = entry\<lparr>ea_calls := ea_calls entry + 1\<rparr>;
          si = (case map_of services (fst key) of None \<Rightarrow> zero_svc | Some s \<Rightarrow> s);
          sj = (case map_of services (snd key) of None \<Rightarrow> zero_svc | Some s \<Rightarrow> s);
          avgD = real_of_int (sa_totalD si + sa_totalD sj) / real_of_int (sa_count si + sa_count sj) / 1000;
          entry = entry\<lparr>ea_totalMs := ea_totalMs entry + avgD\<rparr>;
          entry = (if sa_errors si > 0 \<or> sa_errors sj > 0
                   then entry\<lparr>ea_errors := ea_errors entry + 1\<rparr> else entry)
      in AList.update key entry edgeAgg)"

text \<open>One trace: its service names, sorted by \<^verbatim>\<open>sort.Strings\<close>, and the pairs of them.\<close>

definition svcNames :: "(string \<times> svc_agg) list \<Rightarrow> string list" where
  "svcNames services = sort (map fst services)"

definition add_trace ::
  "((string \<times> string) \<times> edge_agg) list \<Rightarrow> string \<times> (string \<times> svc_agg) list
     \<Rightarrow> ((string \<times> string) \<times> edge_agg) list" where
  "add_trace edgeAgg tr = foldl (add_pair (snd tr)) edgeAgg (pairs (svcNames (snd tr)))"

definition edgeAgg :: "(string \<times> (string \<times> svc_agg) list) list \<Rightarrow> ((string \<times> string) \<times> edge_agg) list" where
  "edgeAgg tsm = foldl add_trace [] tsm"

definition edge_of :: "(string \<times> string) \<times> edge_agg \<Rightarrow> ServiceMapEdge" where
  "edge_of ka =
     \<lparr>e_Source = fst (fst ka), e_Target = snd (fst ka), e_CallCount = ea_calls (snd ka),
      e_AvgLatencyMs = Round (ea_totalMs (snd ka) / real_of_int (ea_calls (snd ka)) * 100) / 100,
      e_ErrorRate = (if ea_calls (snd ka) > 0
                     then Round (real_of_int (ea_errors (snd ka)) / real_of_int (ea_calls (snd ka)) * 1000)
                          / 1000
                     else 0)\<rparr>"

definition trace_info :: "Trace \<Rightarrow> traceInfo" where
  "trace_info t =
     \<lparr>ti_TraceID = tr_TraceID t, ti_ServiceName = tr_ServiceName t, ti_Status = tr_Status t,
      ti_Duration = tr_Duration t\<rparr>"

text \<open>
  \<^verbatim>\<open>GetServiceMapMetrics\<close>. The spans are fetched (and the call fails when that query
  does) but nothing is computed from them.
\<close>

definition tiQuery :: "database \<Rightarrow> time \<Rightarrow> time \<Rightarrow> traceInfo list" where
  "tiQuery db start end =
     map trace_info (filter (\<lambda>t. in_window start end (tr_Timestamp t)) (traces db))"

definition GetServiceMapMetrics :: "database \<Rightarrow> time \<Rightarrow> time \<Rightarrow> db_error + ServiceMapMetrics" where
  "GetServiceMapMetrics db start end =
     (let windowed = filter (\<lambda>t. in_window start end (tr_Timestamp t)) (traces db) in
      if NodeRows \<in> failing db then Inl (QueryFailed NodeRows)
      else
        (let nodes = map node_of (filter (\<lambda>nr. fst nr \<noteq> '''') (nodeRows windowed)) in
         if SpanRows \<in> failing db then Inl (QueryFailed SpanRows)
         else if TraceInfos \<in> failing db then Inl (QueryFailed TraceInfos)
         else
           (let traceInfos = tiQuery db start end;
                edges = map edge_of (edgeAgg (traceServiceMap traceInfos))
            in Inr \<lparr>Nodes = Slice nodes, Edges = Slice edges\<rparr>)))"


subsection \<open>The JSON form of the results\<close>

text \<open>
  What \<^verbatim>\<open>encoding/json\<close> makes of the result structs, field by field under the names
  of their \<^verbatim>\<open>json\<close> tags. How a \<^verbatim>\<open>float64\<close> and a \<^verbatim>\<open>time.Time\<close> are written is left to
  the parameters \<open>fl\<close> and \<open>tm\<close>. \<open>whole_float\<close> is the encoding of a \<^verbatim>\<open>float64\<close> that
  holds a whole number: its digits.
\<close>

definition whole_float :: "real \<Rightarrow> json" where
  "whole_float x = JNum \<lfloor>x\<rfloor>"

definition ServiceError_json :: "(real \<Rightarrow> json) \<Rightarrow> ServiceError \<Rightarrow> json" where
  "ServiceError_json fl se =
     JObj [(''service_name'', JStr (se_ServiceName se)),
           (''error_count'', JNum (se_ErrorCount se)),
           (''total_count'', JNum (se_TotalCount se)),
           (''error_rate'', fl (se_ErrorRate se))]"

definition DashboardStats_json :: "(real \<Rightarrow> json) \<Rightarrow> DashboardStats \<Rightarrow> json" where
  "DashboardStats_json fl stats =
     JObj [(''total_traces'', JNum (ds_TotalTraces stats)),
           (''total_logs'', JNum (ds_TotalLogs stats)),
           (''total_errors'', JNum (ds_TotalErrors stats)),
           (''avg_latency_ms'', fl (ds_AvgLatencyMs stats)),
           (''error_rate'', fl (ds_ErrorRate stats)),
           (''active_services'', JNum (ds_ActiveServices stats)),
           (''p99_latency'', JNum (ds_P99Latency stats)),
           (''top_failing_services'',
              slice_json (ServiceError_json fl) (ds_TopFailingServices stats))]"

definition TrafficPoint_json :: "(time \<Rightarrow> json) \<Rightarrow> TrafficPoint \<Rightarrow> json" where
  "TrafficPoint_json tm p =
     JObj [(''timestamp'', tm (tp_Timestamp p)),
           (''count'', JNum (tp_Count p)),
           (''error_count'', JNum (tp_ErrorCount p))]"

definition ServiceMapNode_json :: "(real \<Rightarrow> json) \<Rightarrow> ServiceMapNode \<Rightarrow> json" where
  "ServiceMapNode_json fl n =
     JObj [(''name'', JStr (n_Name n)),
           (''total_traces'', JNum (n_TotalTraces n)),
           (''error_count'', JNum (n_ErrorCount n)),
           (''avg_latency_ms'', fl (n_AvgLatencyMs n))]"

definition ServiceMapEdge_json :: "(real \<Rightarrow> json) \<Rightarrow> ServiceMapEdge \<Rightarrow> json" where
  "ServiceMapEdge_json fl e =
     JObj [(''source'', JStr (e_Source e)),
           (''target'', JStr (e_Target e)),
           (''call_count'', JNum (e_CallCount e)),
           (''avg_latency_ms'', fl (e_AvgLatencyMs e)),
           (''error_rate'', fl (e_ErrorRate e))]"

definition ServiceMapMetrics_json :: "(real \<Rightarrow> json) \<Rightarrow> ServiceMapMetrics \<Rightarrow> json" where
  "ServiceMapMetrics_json fl m =
     JObj [(''nodes'', slice_json (ServiceMapNode_json fl) (Nodes m)),
           (''edges'', slice_json (ServiceMapEdge_json fl) (Edges m))]"

text \<open>
  Concrete stores: one with no rows at all, and one whose traces \<^verbatim>\<open>t1\<close> and \<^verbatim>\<open>t2\<close>
  carry the service names \<^verbatim>\<open>cart\<close>, \<^verbatim>\<open>auth\<close>, \<^verbatim>\<open>pay\<close> and \<^verbatim>\<open>cart\<close>, \<^verbatim>\<open>auth\<close>, with one
  row of \<^verbatim>\<open>t2\<close> that has no service name.
\<close>

definition empty_db :: database where
  "empty_db = \<lparr>traces = [], spans = [], logs = [], failing = {}\<rparr>"

definition row :: "string \<Rightarrow> string \<Rightarrow> Trace" where
  "row tid svc =
     \<lparr>tr_TraceID = tid, tr_ServiceName = svc, tr_Operation = ''GET /'', tr_Status = ''OK'',
      tr_Duration = 1000, tr_Timestamp = 30\<rparr>"


text \<open>
  A store with one trace and one log, both of them later than the window the examples
  ask for.
\<close>

definition late_db :: database where
  "late_db =
     \<lparr>traces = [(row ''t1'' ''cart'')\<lparr>tr_Timestamp := 100\<rparr>],
      spans = [],
      logs = [\<lparr>lg_TraceID = ''t1'', lg_SpanID = '''', lg_Severity = ''INFO'', lg_Body = ''ok'',
               lg_ServiceName = ''cart'', lg_Timestamp = 100\<rparr>],
      failing = {}\<rparr>"




section \<open>Theorems\<close>

subsection \<open>Compression\<close>

lemma len_zero_iff: "len s = 0 \<longleftrightarrow> elems s = []"
  by (simp add: len_def)

text \<open>
  Claim C9. Zstandard compression round-trips: for a non-empty byte slice \<open>d\<close>,
  \<^verbatim>\<open>Decompress(Compress(d))\<close> returns the bytes of \<open>d\<close> and no error; for empty or nil
  input both functions return nil (and \<^verbatim>\<open>Decompress\<close> a nil error). The library's part
  is its contract: the frame of a non-empty input is non-empty (it starts with the magic
  number) and decodes to that input.
\<close>

theorem Compress_Decompress_roundtrip:
  assumes frame: "\<And>x. x \<noteq> [] \<Longrightarrow> EncodeAll x \<noteq> []"
    and lib: "\<And>x. x \<noteq> [] \<Longrightarrow> \<exists>r. DecodeAll (EncodeAll x) = Inr r \<and> elems r = x"
  shows "(len d \<noteq> 0 \<longrightarrow>
            (\<exists>r. Decompress DecodeAll (Compress EncodeAll d) = Inr r \<and> elems r = elems d))
       \<and> (len d = 0 \<longrightarrow>
            Compress EncodeAll d = NilSlice \<and> Decompress DecodeAll d = Inr NilSlice)"
proof (cases "len d = 0")
  case True
  then show ?thesis by (simp add: Compress_def Decompress_def)
next
  case False
  then have ne: "elems d \<noteq> []" by (simp add: len_zero_iff)
  from lib [OF ne] obtain r where r: "DecodeAll (EncodeAll (elems d)) = Inr r" "elems r = elems d"
    by blast
  have "len (Compress EncodeAll d) \<noteq> 0"
    using False frame [OF ne] by (simp add: Compress_def len_def)
  moreover have "elems (Compress EncodeAll d) = EncodeAll (elems d)"
    using False by (simp add: Compress_def)
  ultimately have "Decompress DecodeAll (Compress EncodeAll d) = Inr r"
    using r(1) by (simp add: Decompress_def)
  with r(2) False show ?thesis by blast
qed

lemma frame_encode_nonempty: "frame_encode x \<noteq> []"
  by (simp add: frame_encode_def)

lemma frame_decode_encode: "\<exists>r. frame_decode (frame_encode x) = Inr r \<and> elems r = x"
  by (simp add: frame_encode_def)

theorem Compress_Decompress_roundtrip_witness:
  "(\<exists>r. Decompress frame_decode (Compress frame_encode (Slice ''trace'')) = Inr r
        \<and> elems r = ''trace'')
   \<and> Compress frame_encode (Slice []) = NilSlice
   \<and> Decompress frame_decode NilSlice = (Inr NilSlice :: string zstd_error + char slice)"
proof -
  have a: "len (Slice ''trace'') \<noteq> 0" and b: "len (Slice ([] :: bytes)) = 0"
    and c: "len (NilSlice :: char slice) = 0"
    by (simp_all add: len_def)
  show ?thesis
    using Compress_Decompress_roundtrip [of frame_encode frame_decode "Slice ''trace''"]
      Compress_Decompress_roundtrip [of frame_encode frame_decode "Slice []"]
      Compress_Decompress_roundtrip [of frame_encode frame_decode NilSlice]
      frame_encode_nonempty frame_decode_encode a b c
    by simp
qed

subsection \<open>Sorting whitelist\<close>

lemma validSorts_Some: "sortBy \<in> sortFields \<Longrightarrow> validSorts sortBy = Some sortBy"
  by (auto simp: sortFields_def validSorts_def)

lemma validSorts_None: "sortBy \<notin> sortFields \<Longrightarrow> validSorts sortBy = None"
  by (simp add: sortFields_def validSorts_def)

text \<open>
  Claim C10. A \<open>sortBy\<close> outside the whitelist (the empty string included) gives the
  clause \<^verbatim>\<open>timestamp DESC\<close>; a whitelisted \<open>sortBy\<close> gives that field followed by
  \<^verbatim>\<open>DESC\<close> when \<open>orderBy\<close> is \<^verbatim>\<open>desc\<close> and by \<^verbatim>\<open>ASC\<close> otherwise; so the clause is
  always one of ten fixed strings, whatever the caller passes.
\<close>

theorem orderClause_whitelist:
  "(sortBy \<notin> sortFields \<longrightarrow> orderClause sortBy orderBy = ''timestamp DESC'')
   \<and> (sortBy \<in> sortFields \<longrightarrow>
        orderClause sortBy orderBy =
          sortBy @ '' '' @ (if orderBy = ''desc'' then ''DESC'' else ''ASC''))
   \<and> orderClause sortBy orderBy \<in> orderClauses"
proof -
  have out: "orderClause sortBy orderBy = ''timestamp DESC''" if "sortBy \<notin> sortFields"
    using validSorts_None [OF that] by (simp add: orderClause_def)
  have inn: "orderClause sortBy orderBy =
      sortBy @ '' '' @ (if orderBy = ''desc'' then ''DESC'' else ''ASC'')" if "sortBy \<in> sortFields"
  proof -
    have "sortBy \<noteq> ''''" using that by (auto simp: sortFields_def)
    then show ?thesis using validSorts_Some [OF that] by (simp add: orderClause_def)
  qed
  have mem: "orderClause sortBy orderBy \<in> orderClauses"
  proof (cases "sortBy \<in> sortFields")
    case True
    then show ?thesis unfolding inn [OF True] by (auto simp: sortFields_def orderClauses_def)
  next
    case False
    then show ?thesis unfolding out [OF False] by (simp add: orderClauses_def)
  qed
  from out inn mem show ?thesis by blast
qed

theorem orderClause_whitelist_witness:
  "orderClause ''duration'' ''desc'' = ''duration DESC''
   \<and> orderClause ''status'' ''DESC'' = ''status ASC''
   \<and> orderClause '''' ''asc'' = ''timestamp DESC''
   \<and> orderClause ''id; DROP TABLE traces'' ''desc'' = ''timestamp DESC''"
proof -
  have a: "''duration'' \<in> sortFields" and b: "''status'' \<in> sortFields"
    and c: "'''' \<notin> sortFields" and d: "''id; DROP TABLE traces'' \<notin> sortFields"
    by (simp_all add: sortFields_def)
  show ?thesis
    using orderClause_whitelist [of "''duration''" "''desc''"]
      orderClause_whitelist [of "''status''" "''DESC''"]
      orderClause_whitelist [of "''''" "''asc''"]
      orderClause_whitelist [of "''id; DROP TABLE traces''" "''desc''"] a b c d
    by simp
qed

subsection \<open>The broadcast hub\<close>

text \<open>Neither the callback nor the removal of a client touches the buffer or the channels of the hub itself.\<close>

lemma notify_fields [simp]:
  "clients (notify h) = clients h" "heap (notify h) = heap h" "buffer (notify h) = buffer h"
  "broadcast (notify h) = broadcast h" "maxBufferSize (notify h) = maxBufferSize h"
  "stopCh_closed (notify h) = stopCh_closed h" "onConnectionChange (notify h) = onConnectionChange h"
  by (simp_all add: notify_def)

lemma drop_client_fields [simp]:
  "clients (drop_client c h) = removeAll c (clients h)"
  "heap (drop_client c h) = (heap h)(c := (heap h c)\<lparr>send := (send (heap h c))\<lparr>closed := True\<rparr>\<rparr>)"
  "buffer (drop_client c h) = buffer h"
  "broadcast (drop_client c h) = broadcast h" "maxBufferSize (drop_client c h) = maxBufferSize h"
  "stopCh_closed (drop_client c h) = stopCh_closed h"
  by (simp_all add: drop_client_def)

lemma flush_clients_effect:
  assumes "distinct cs" and "\<forall>c\<in>set cs. \<not> closed (send (heap h c))"
  shows "\<exists>h'. flush_clients data cs h = Some h'
     \<and> clients h' = filter (\<lambda>c. \<not> (c \<in> set cs \<and> chan_full h c)) (clients h)
     \<and> (\<forall>c. heap h' c = (if c \<in> set cs then (if chan_full h c then shut (heap h c) else sent_to data (heap h c)) else heap h c))
     \<and> buffer h' = buffer h \<and> broadcast h' = broadcast h \<and> maxBufferSize h' = maxBufferSize h
     \<and> stopCh_closed h' = stopCh_closed h"
  using assms
proof (induction cs arbitrary: h)
  case Nil
  then show ?case by simp
next
  case (Cons c cs)
  have open_c: "\<not> closed (send (heap h c))" using Cons.prems by simp
  show ?case
  proof (cases "chan_full h c")
    case True
    let ?h1 = "drop_client c h"
    have sel: "select_send (send (heap h c)) data = Default"
      using True open_c by (simp add: select_send_def chan_full_def)
    have d: "distinct cs" and notin: "c \<notin> set cs" using Cons.prems by simp_all
    have op: "\<forall>x\<in>set cs. \<not> closed (send (heap ?h1 x))" using Cons.prems notin by auto
    have full_eq: "\<And>x. x \<in> set cs \<Longrightarrow> chan_full ?h1 x = chan_full h x"
      using notin by (auto simp: chan_full_def)
    from Cons.IH [OF d op] obtain h' where h':
      "flush_clients data cs ?h1 = Some h'"
      "clients h' = filter (\<lambda>x. \<not> (x \<in> set cs \<and> chan_full ?h1 x)) (clients ?h1)"
      "\<forall>x. heap h' x = (if x \<in> set cs then (if chan_full ?h1 x then shut (heap ?h1 x) else sent_to data (heap ?h1 x)) else heap ?h1 x)"
      "buffer h' = buffer ?h1" "broadcast h' = broadcast ?h1" "maxBufferSize h' = maxBufferSize ?h1"
      "stopCh_closed h' = stopCh_closed ?h1"
      by blast
    have cl: "clients h' = filter (\<lambda>x. \<not> (x \<in> set (c # cs) \<and> chan_full h x)) (clients h)"
      unfolding h'(2) using True notin
      by (auto simp: removeAll_filter_not_eq full_eq intro!: filter_cong)
    have hp: "\<forall>x. heap h' x = (if x \<in> set (c # cs) then (if chan_full h x then shut (heap h x) else sent_to data (heap h x)) else heap h x)"
      using h'(3) True notin by (auto simp: shut_def full_eq)
    show ?thesis using sel h'(1) cl hp h'(4-7) by simp
  next
    case False
    let ?ch = "(send (heap h c))\<lparr>queue := queue (send (heap h c)) @ [data]\<rparr>"
    let ?h1 = "h\<lparr>heap := (heap h)(c := (heap h c)\<lparr>send := ?ch\<rparr>)\<rparr>"
    have sel: "select_send (send (heap h c)) data = Sent ?ch"
      using False open_c by (simp add: select_send_def chan_full_def)
    have d: "distinct cs" and notin: "c \<notin> set cs" using Cons.prems by simp_all
    have op: "\<forall>x\<in>set cs. \<not> closed (send (heap ?h1 x))" using Cons.prems notin by auto
    have full_eq: "\<And>x. x \<in> set cs \<Longrightarrow> chan_full ?h1 x = chan_full h x"
      using notin by (auto simp: chan_full_def)
    from Cons.IH [OF d op] obtain h' where h':
      "flush_clients data cs ?h1 = Some h'"
      "clients h' = filter (\<lambda>x. \<not> (x \<in> set cs \<and> chan_full ?h1 x)) (clients ?h1)"
      "\<forall>x. heap h' x = (if x \<in> set cs then (if chan_full ?h1 x then shut (heap ?h1 x) else sent_to data (heap ?h1 x)) else heap ?h1 x)"
      "buffer h' = buffer ?h1" "broadcast h' = broadcast ?h1" "maxBufferSize h' = maxBufferSize ?h1"
      "stopCh_closed h' = stopCh_closed ?h1"
      by blast
    have cl: "clients h' = filter (\<lambda>x. \<not> (x \<in> set (c # cs) \<and> chan_full h x)) (clients h)"
      unfolding h'(2) using False notin
      by (auto simp: full_eq intro!: filter_cong)
    have hp: "\<forall>x. heap h' x = (if x \<in> set (c # cs) then (if chan_full h x then shut (heap h x) else sent_to data (heap h x)) else heap h x)"
      using h'(3) False notin by (auto simp: sent_to_def full_eq)
    show ?thesis using sel h'(1) cl hp h'(4-7) by simp
  qed
qed

text \<open>
  The loop of \<^verbatim>\<open>flush\<close> was analysed above for any list of keys; \<^verbatim>\<open>flush\<close> itself
  runs it over all of \<^verbatim>\<open>h.clients\<close>, after the buffer has been swapped.
\<close>

lemma flush_effect:
  assumes "clients_inv h"
  shows "\<exists>h'. flush marshal h = Some h' \<and> buffer h' = []
     \<and> broadcast h' = broadcast h \<and> maxBufferSize h' = maxBufferSize h
     \<and> stopCh_closed h' = stopCh_closed h
     \<and> (case (if buffer h = [] then None else marshal (buffer h)) of
           None \<Rightarrow> clients h' = clients h \<and> heap h' = heap h
         | Some data \<Rightarrow>
             clients h' = filter (\<lambda>c. \<not> chan_full h c) (clients h)
             \<and> (\<forall>c. heap h' c =
                   (if c \<in> set (clients h)
                    then (if chan_full h c then shut (heap h c) else sent_to data (heap h c))
                    else heap h c)))"
proof (cases "buffer h = []")
  case True
  then show ?thesis by (simp add: flush_def)
next
  case False
  show ?thesis
  proof (cases "marshal (buffer h)")
    case None
    with False show ?thesis by (simp add: flush_def)
  next
    case (Some data)
    let ?h1 = "h\<lparr>buffer := []\<rparr>"
    have d: "distinct (clients ?h1)" and op: "\<forall>c\<in>set (clients ?h1). \<not> closed (send (heap ?h1 c))"
      using assms by (simp_all add: clients_inv_def list_all_iff)
    have full_eq: "\<And>x. chan_full ?h1 x = chan_full h x" by (simp add: chan_full_def)
    from flush_clients_effect [OF d op, of data] obtain h' where h':
      "flush_clients data (clients ?h1) ?h1 = Some h'"
      "clients h' = filter (\<lambda>c. \<not> (c \<in> set (clients ?h1) \<and> chan_full ?h1 c)) (clients ?h1)"
      "\<forall>c. heap h' c = (if c \<in> set (clients ?h1) then (if chan_full ?h1 c then shut (heap ?h1 c) else sent_to data (heap ?h1 c)) else heap ?h1 c)"
      "buffer h' = buffer ?h1" "broadcast h' = broadcast ?h1" "maxBufferSize h' = maxBufferSize ?h1"
      "stopCh_closed h' = stopCh_closed ?h1"
      by blast
    have fl: "flush marshal h = Some h'" using False Some h'(1) by (simp add: flush_def)
    have cl: "clients h' = filter (\<lambda>c. \<not> chan_full h c) (clients h)"
      unfolding h'(2) by (auto simp: full_eq intro!: filter_cong)
    have hp: "\<forall>c. heap h' c =
                   (if c \<in> set (clients h)
                    then (if chan_full h c then shut (heap h c) else sent_to data (heap h c))
                    else heap h c)"
      using h'(3) by (simp add: full_eq)
    show ?thesis using fl cl hp h'(4-7) False Some by simp
  qed
qed

lemma flush_delivers:
  assumes inv: "clients_inv h" and ne: "buffer h \<noteq> []" and m: "marshal (buffer h) = Some data"
  shows "\<exists>h'. flush marshal h = Some h' \<and> buffer h' = []
     \<and> set (clients h') = {c \<in> set (clients h). \<not> chan_full h c}
     \<and> (\<forall>c. c \<in> set (clients h) \<and> chan_full h c \<longrightarrow>
            send_closed c h' \<and> inbox c h' = inbox c h \<and> conn_of c h' = conn_of c h)
     \<and> (\<forall>c. c \<in> set (clients h) \<and> \<not> chan_full h c \<longrightarrow>
            \<not> send_closed c h' \<and> inbox c h' = inbox c h @ [data] \<and> conn_of c h' = conn_of c h)
     \<and> (\<forall>c. c \<notin> set (clients h) \<longrightarrow> heap h' c = heap h c)"
proof -
  from flush_effect [OF inv, of marshal] ne m obtain h' where h':
    "flush marshal h = Some h'" "buffer h' = []"
    "clients h' = filter (\<lambda>c. \<not> chan_full h c) (clients h)"
    "\<forall>c. heap h' c = (if c \<in> set (clients h)
                    then (if chan_full h c then shut (heap h c) else sent_to data (heap h c))
                    else heap h c)"
    by auto
  have op: "\<And>c. c \<in> set (clients h) \<Longrightarrow> \<not> closed (send (heap h c))"
    using inv by (simp add: clients_inv_def list_all_iff)
  have a: "set (clients h') = {c \<in> set (clients h). \<not> chan_full h c}"
    unfolding h'(3) by auto
  have b: "\<forall>c. c \<in> set (clients h) \<and> chan_full h c \<longrightarrow>
            send_closed c h' \<and> inbox c h' = inbox c h \<and> conn_of c h' = conn_of c h"
    using h'(4) by (simp add: send_closed_def inbox_def conn_of_def shut_def)
  have c: "\<forall>c. c \<in> set (clients h) \<and> \<not> chan_full h c \<longrightarrow>
            \<not> send_closed c h' \<and> inbox c h' = inbox c h @ [data] \<and> conn_of c h' = conn_of c h"
    using h'(4) op by (simp add: send_closed_def inbox_def conn_of_def sent_to_def)
  have d: "\<forall>c. c \<notin> set (clients h) \<longrightarrow> heap h' c = heap h c"
    using h'(4) by simp
  from h'(1,2) a b c d show ?thesis by blast
qed

lemma NewHub_inv: "hub_inv (NewHub cb mem)"
  by (simp add: hub_inv_def clients_inv_def NewHub_def make_chan_def)

lemma hub_inv_clients: "hub_inv h \<Longrightarrow> clients_inv h"
  by (simp add: hub_inv_def)

text \<open>The invariant is kept by \<^verbatim>\<open>flush\<close> and by every iteration of the run loop.\<close>

lemma flush_preserves_inv:
  assumes "clients_inv h" and "flush marshal h = Some h'"
  shows "clients_inv h'"
proof -
  from flush_effect [OF assms(1), of marshal] assms(2) have h':
    "case (if buffer h = [] then None else marshal (buffer h)) of
           None \<Rightarrow> clients h' = clients h \<and> heap h' = heap h
         | Some data \<Rightarrow>
             clients h' = filter (\<lambda>c. \<not> chan_full h c) (clients h)
             \<and> (\<forall>c. heap h' c =
                   (if c \<in> set (clients h)
                    then (if chan_full h c then shut (heap h c) else sent_to data (heap h c))
                    else heap h c))"
    by auto
  show ?thesis
  proof (cases "if buffer h = [] then None else marshal (buffer h)")
    case None
    with h' assms(1) show ?thesis by (simp add: clients_inv_def)
  next
    case (Some data)
    with h' have cl: "clients h' = filter (\<lambda>c. \<not> chan_full h c) (clients h)"
      and hp: "\<forall>c. heap h' c =
                   (if c \<in> set (clients h)
                    then (if chan_full h c then shut (heap h c) else sent_to data (heap h c))
                    else heap h c)"
      by simp_all
    show ?thesis
      using assms(1) unfolding clients_inv_def cl list_all_iff
      by (auto simp: hp sent_to_def)
  qed
qed

lemma Run_select_preserves_inv:
  assumes inv: "hub_inv h" and step: "Run_select marshal ev h = Continue h'"
    and fresh: "\<And>c. ev = Register c \<Longrightarrow> c \<notin> set (clients h) \<Longrightarrow> \<not> closed (send (heap h c))"
  shows "hub_inv h'"
proof (cases ev)
  case StopCh
  with step inv show ?thesis by (auto split: if_splits option.splits)
next
  case (Register c)
  with step have h': "h' = notify (h\<lparr>clients := List.insert c (clients h)\<rparr>)" by simp
  show ?thesis
  proof (cases "c \<in> set (clients h)")
    case True
    with inv show ?thesis unfolding h' by (simp add: hub_inv_def clients_inv_def notify_def)
  next
    case False
    with inv fresh [OF Register] show ?thesis unfolding h'
      by (simp add: hub_inv_def clients_inv_def notify_def List.insert_def)
  qed
next
  case (Unregister c)
  show ?thesis
  proof (cases "c \<in> set (clients h)")
    case True
    with step Unregister have h': "h' = drop_client c h" by (simp split: if_splits)
    have "clients_inv h'"
      using inv unfolding h' hub_inv_def clients_inv_def list_all_iff
      by (auto simp: distinct_removeAll)
    with inv show ?thesis unfolding h' by (simp add: hub_inv_def)
  next
    case False
    with step Unregister inv show ?thesis by simp
  qed
next
  case BroadcastRecv
  show ?thesis
  proof (cases "queue (broadcast h)")
    case Nil
    with step BroadcastRecv inv show ?thesis by simp
  next
    case (Cons e q)
    let ?h1 = "h\<lparr>broadcast := (broadcast h)\<lparr>queue := q\<rparr>, buffer := buffer h @ [e]\<rparr>"
    have ci: "clients_inv ?h1" using inv by (simp add: hub_inv_def clients_inv_def)
    show ?thesis
    proof (cases "length (buffer ?h1) \<ge> maxBufferSize ?h1")
      case True
      with step BroadcastRecv Cons have fl: "flush marshal ?h1 = Some h'"
        by (simp add: Let_def split: option.splits)
      from flush_effect [OF ci, of marshal] fl have
        "buffer h' = []" "broadcast h' = broadcast ?h1" "maxBufferSize h' = maxBufferSize ?h1"
        by auto
      with flush_preserves_inv [OF ci fl] inv show ?thesis by (simp add: hub_inv_def)
    next
      case False
      with step BroadcastRecv Cons have "h' = ?h1" by (simp add: Let_def)
      with False ci inv show ?thesis by (simp add: hub_inv_def)
    qed
  qed
next
  case Tick
  with step have fl: "flush marshal h = Some h'" by (simp split: option.splits)
  have ci: "clients_inv h" using inv by (simp add: hub_inv_def)
  from flush_effect [OF ci, of marshal] fl have
    "buffer h' = []" "broadcast h' = broadcast h" "maxBufferSize h' = maxBufferSize h"
    by auto
  with flush_preserves_inv [OF ci fl] inv show ?thesis by (simp add: hub_inv_def)
qed

lemmas hub_eval =
  Stop_then_Run_def Stop_def NewHub_def flush_def select_send_def drop_client_def notify_def
  marshal_bodies_def entry_def new_client_def slow_client_def make_chan_def
  inbox_def conn_of_def send_closed_def writer_of_def writer_next_def chan_full_def

lemma hub_two_inv: "hub_inv hub_two"
  by (simp add: hub_two_def hub_inv_def clients_inv_def hub_eval)

lemma hub_idle_inv: "hub_inv hub_idle"
  by (simp add: hub_idle_def hub_inv_def clients_inv_def hub_eval)


lemma hub_full_inv: "hub_inv hub_full"
  by (simp add: hub_full_def hub_inv_def clients_inv_def NewHub_def make_chan_def)



text \<open>
  Claim C4 (amended). After \<^verbatim>\<open>Stop()\<close>, when the run loop takes the stop signal it
  flushes what is buffered and returns; whatever events follow are not handled. The
  flush is an ordinary one, so the clients that remain are clients that were registered.
  The loop closes no connection and no \<^verbatim>\<open>send\<close> channel of a client that remains: every
  connection is in the state it was in, and the remaining clients stay registered with
  their channels open.
\<close>

theorem Stop_flushes_and_returns:
  assumes inv: "hub_inv h" and running: "\<not> stopCh_closed h"
  shows "\<exists>hs h'. Stop h = Some hs \<and> flush marshal hs = Some h'
           \<and> Stop_then_Run marshal (StopCh # evs) h = Return h'
           \<and> buffer h' = []
           \<and> set (clients h') \<subseteq> set (clients h)
           \<and> (\<forall>c. conn_of c h' = conn_of c h)
           \<and> (\<forall>c\<in>set (clients h'). \<not> send_closed c h')"
proof -
  let ?hs = "h\<lparr>stopCh_closed := True\<rparr>"
  have st: "Stop h = Some ?hs" using running by (simp add: Stop_def)
  have ci: "clients_inv ?hs" using inv by (simp add: hub_inv_def clients_inv_def)
  from flush_effect [OF ci, of marshal] obtain h' where h':
    "flush marshal ?hs = Some h'" "buffer h' = []"
    "case (if buffer ?hs = [] then None else marshal (buffer ?hs)) of
           None \<Rightarrow> clients h' = clients ?hs \<and> heap h' = heap ?hs
         | Some data \<Rightarrow>
             clients h' = filter (\<lambda>c. \<not> chan_full ?hs c) (clients ?hs)
             \<and> (\<forall>c. heap h' c =
                   (if c \<in> set (clients ?hs)
                    then (if chan_full ?hs c then shut (heap ?hs c) else sent_to data (heap ?hs c))
                    else heap ?hs c))"
    by blast
  have run: "Stop_then_Run marshal (StopCh # evs) h = Return h'"
    using st h'(1) by (simp add: Stop_then_Run_def)
  have sub: "set (clients h') \<subseteq> set (clients h)"
    using h'(3) by (auto split: option.splits if_splits)
  have cn: "\<forall>c. conn_of c h' = conn_of c h"
    using h'(3) by (auto simp: conn_of_def shut_def sent_to_def split: option.splits if_splits)
  have "clients_inv h'" using flush_preserves_inv [OF ci h'(1)] .
  then have op: "\<forall>c\<in>set (clients h'). \<not> send_closed c h'"
    by (simp add: clients_inv_def list_all_iff send_closed_def)
  from st h'(1,2) run sub cn op show ?thesis by blast
qed

text \<open>
  The claim as first stated fails: after the stop, client 1 is still registered, its
  connection is open, its channel is open, and its writer goroutine waits for a message
  that will not come.
\<close>

theorem Stop_closes_connections_counterexample:
  "returned (Stop_then_Run marshal_bodies [StopCh] hub_idle)
   \<and> map_option clients (hub_of (Stop_then_Run marshal_bodies [StopCh] hub_idle)) = Some [1]
   \<and> map_option (conn_of 1) (hub_of (Stop_then_Run marshal_bodies [StopCh] hub_idle)) = Some ConnOpen
   \<and> map_option (send_closed 1) (hub_of (Stop_then_Run marshal_bodies [StopCh] hub_idle)) = Some False
   \<and> map_option (writer_of 1) (hub_of (Stop_then_Run marshal_bodies [StopCh] hub_idle)) = Some Waits
   \<and> map_option (conn_of 1) (hub_of (Stop_then_Run marshal_bodies [StopCh] hub_idle))
       \<noteq> Some (ConnClosed StatusNormalClosure ''closing'')"
  by (simp add: hub_idle_def hub_eval)

theorem Stop_flushes_and_returns_witness:
  "hub_inv hub_two \<and> \<not> stopCh_closed hub_two
   \<and> (\<exists>h'. Stop_then_Run marshal_bodies [StopCh, Tick, Register 3] hub_two = Return h'
          \<and> buffer h' = [] \<and> conn_of 1 h' = ConnOpen \<and> conn_of 2 h' = ConnOpen)"
proof -
  have r: "\<not> stopCh_closed hub_two" by (simp add: hub_two_def NewHub_def)
  have c: "conn_of 1 hub_two = ConnOpen" "conn_of 2 hub_two = ConnOpen"
    by (simp_all add: hub_two_def hub_eval)
  from Stop_flushes_and_returns [OF hub_two_inv r, of marshal_bodies "[Tick, Register 3]"] c
  have "\<exists>h'. Stop_then_Run marshal_bodies [StopCh, Tick, Register 3] hub_two = Return h'
          \<and> buffer h' = [] \<and> conn_of 1 h' = ConnOpen \<and> conn_of 2 h' = ConnOpen"
    by auto
  with hub_two_inv r show ?thesis by blast
qed

text \<open>
  Claim C5. When a flush finds a client's \<^verbatim>\<open>send\<close> channel full, that client is
  removed from the client set and its channel is closed; a client whose channel has
  room stays registered, keeps an open channel and receives the message. \<^verbatim>\<open>flush\<close>
  returns in every case: no branch of it waits. The channel \<^verbatim>\<open>HandleWebSocket\<close> makes
  for a client has capacity 256.
\<close>

theorem flush_sheds_slow_clients:
  assumes "clients_inv h" and "buffer h \<noteq> []" and "marshal (buffer h) = Some data"
  shows "\<exists>h'. flush marshal h = Some h'
     \<and> (\<forall>c\<in>set (clients h).
           (chan_full h c \<longrightarrow> c \<notin> set (clients h') \<and> send_closed c h')
         \<and> (\<not> chan_full h c \<longrightarrow>
              c \<in> set (clients h') \<and> \<not> send_closed c h' \<and> inbox c h' = inbox c h @ [data]))
     \<and> cap (send new_client) = 256"
proof -
  from flush_delivers [of h marshal data] assms obtain h' where h':
    "flush marshal h = Some h'"
    "set (clients h') = {c \<in> set (clients h). \<not> chan_full h c}"
    "\<forall>c. c \<in> set (clients h) \<and> chan_full h c \<longrightarrow>
            send_closed c h' \<and> inbox c h' = inbox c h \<and> conn_of c h' = conn_of c h"
    "\<forall>c. c \<in> set (clients h) \<and> \<not> chan_full h c \<longrightarrow>
            \<not> send_closed c h' \<and> inbox c h' = inbox c h @ [data] \<and> conn_of c h' = conn_of c h"
    by blast
  have "cap (send new_client) = 256" by (simp add: new_client_def make_chan_def)
  with h' show ?thesis by auto
qed

theorem flush_sheds_slow_clients_witness:
  "clients_inv hub_two \<and> chan_full hub_two 2 \<and> \<not> chan_full hub_two 1
   \<and> (\<exists>h'. flush marshal_bodies hub_two = Some h'
         \<and> 2 \<notin> set (clients h') \<and> send_closed 2 h'
         \<and> 1 \<in> set (clients h') \<and> \<not> send_closed 1 h'
         \<and> inbox 1 h' = [''['' @ quoted ''a'' @ '']''])"
proof -
  have ci: "clients_inv hub_two" using hub_two_inv by (rule hub_inv_clients)
  have ne: "buffer hub_two \<noteq> []" by (simp add: hub_two_def)
  have m: "marshal_bodies (buffer hub_two) = Some (''['' @ quoted ''a'' @ '']'')"
    by (simp add: hub_two_def hub_eval)
  have f: "chan_full hub_two 2" "\<not> chan_full hub_two 1" "inbox 1 hub_two = []"
    "set (clients hub_two) = {1, 2}"
    by (auto simp: hub_two_def hub_eval)
  from flush_sheds_slow_clients [of hub_two marshal_bodies, OF ci ne m] f
  have "\<exists>h'. flush marshal_bodies hub_two = Some h'
         \<and> 2 \<notin> set (clients h') \<and> send_closed 2 h'
         \<and> 1 \<in> set (clients h') \<and> \<not> send_closed 1 h'
         \<and> inbox 1 h' = [''['' @ quoted ''a'' @ '']'']"
    by auto
  with ci f show ?thesis by blast
qed

text \<open>
  Claim C6. \<^verbatim>\<open>Broadcast\<close> returns in every case: with fewer than 5000 entries waiting
  in \<^verbatim>\<open>broadcast\<close> the entry is appended, with 5000 waiting the hub is left as it was
  and the entry is gone. \<^verbatim>\<open>NewHub\<close> gives the channel capacity 5000.
\<close>

theorem Broadcast_nonblocking:
  assumes "hub_inv h"
  shows "Broadcast e h =
           Some (if length (queue (broadcast h)) < 5000
                 then h\<lparr>broadcast := (broadcast h)\<lparr>queue := queue (broadcast h) @ [e]\<rparr>\<rparr>
                 else h)
         \<and> cap (broadcast (NewHub cb mem)) = 5000"
  using assms by (simp add: Broadcast_def select_send_def hub_inv_def NewHub_def make_chan_def)

theorem Broadcast_nonblocking_witness:
  "Broadcast (entry ''a'') hub_full = Some hub_full
   \<and> map_option (\<lambda>h. queue (broadcast h)) (Broadcast (entry ''a'') (NewHub False (\<lambda>a. new_client)))
       = Some [entry ''a'']"
proof -
  have full: "length (queue (broadcast hub_full)) = 5000"
    by (simp add: hub_full_def make_chan_def)
  have empty: "queue (broadcast (NewHub False (\<lambda>a. new_client))) = []"
    by (simp add: NewHub_def make_chan_def)
  show ?thesis
    using Broadcast_nonblocking [OF hub_full_inv, of "entry ''a''"]
      Broadcast_nonblocking [OF NewHub_inv, of "entry ''a''" False "\<lambda>a. new_client"] full empty
    by simp
qed

declare Run_select.simps [simp del]


subsection \<open>The dead-letter queue\<close>






















lemma map_of_append_new:
  "map_of xs k = None \<Longrightarrow> map_of (xs @ [(k, v)]) = (map_of xs)(k \<mapsto> v)"
  by (auto simp: map_add_def fun_eq_iff split: option.splits)










subsection \<open>The service map\<close>



























lemma edge_of_fields [simp]:
  "e_Source (edge_of ka) = fst (fst ka)" "e_Target (edge_of ka) = snd (fst ka)"
  "e_CallCount (edge_of ka) = ea_calls (snd ka)"
  by (simp_all add: edge_of_def)














subsection \<open>A window without records\<close>

lemma filter_none: "\<forall>x\<in>set xs. \<not> P x \<Longrightarrow> filter P xs = []"
  by (induction xs) auto

text \<open>
  Claim C8 (amended). When no trace and no log of the store lies in the requested
  window, \<^verbatim>\<open>GetDashboardStats\<close> returns the zero value of \<^verbatim>\<open>DashboardStats\<close> (zero
  totals, zero error rate, zero average and p99 latency, zero active services, and a nil
  slice of failing services), \<^verbatim>\<open>GetTrafficMetrics\<close> returns a nil slice, and
  \<^verbatim>\<open>GetServiceMapMetrics\<close> returns empty, non-nil slices of nodes and edges; a query
  that fails makes the call return its error instead. All four sequences have length
  zero. In the JSON payload the nodes and edges are empty arrays, while the failing
  services and the traffic series, being nil, are written as \<^verbatim>\<open>null\<close>.
\<close>

theorem empty_window_snapshot:
  assumes no_traces: "\<forall>t\<in>set (traces db). \<not> in_window start end (tr_Timestamp t)"
    and no_logs: "\<forall>l\<in>set (logs db). \<not> between start end (lg_Timestamp l)"
  shows "GetDashboardStats db start end serviceNames =
           (if CountTraces \<in> failing db then Inl (QueryFailed CountTraces)
            else if CountLogs \<in> failing db then Inl (QueryFailed CountLogs)
            else if CountErrors \<in> failing db then Inl (QueryFailed CountErrors)
            else if CountServices \<in> failing db then Inl (QueryFailed CountServices)
            else if Durations \<in> failing db then Inl (QueryFailed Durations)
            else Inr zero_stats)
       \<and> GetTrafficMetrics db start end serviceNames =
           (if TrafficRows \<in> failing db then Inl (QueryFailed TrafficRows) else Inr NilSlice)
       \<and> GetServiceMapMetrics db start end =
           (if NodeRows \<in> failing db then Inl (QueryFailed NodeRows)
            else if SpanRows \<in> failing db then Inl (QueryFailed SpanRows)
            else if TraceInfos \<in> failing db then Inl (QueryFailed TraceInfos)
            else Inr \<lparr>Nodes = Slice [], Edges = Slice []\<rparr>)
       \<and> DashboardStats_json fl zero_stats =
           JObj [(''total_traces'', JNum 0), (''total_logs'', JNum 0), (''total_errors'', JNum 0),
                 (''avg_latency_ms'', fl 0), (''error_rate'', fl 0),
                 (''active_services'', JNum 0), (''p99_latency'', JNum 0),
                 (''top_failing_services'', JNull)]
       \<and> len (ds_TopFailingServices zero_stats) = 0
       \<and> len (NilSlice :: TrafficPoint slice) = 0
       \<and> slice_json (TrafficPoint_json tm) NilSlice = JNull
       \<and> ServiceMapMetrics_json fl \<lparr>Nodes = Slice [], Edges = Slice []\<rparr> =
           JObj [(''nodes'', JArr []), (''edges'', JArr [])]"
proof -
  have nb: "\<forall>t\<in>set (traces db). \<not> between start end (tr_Timestamp t)"
    using no_traces by (auto simp: in_window_def)
  have base: "filter (\<lambda>t. between start end (tr_Timestamp t)
                           \<and> in_services serviceNames (tr_ServiceName t)) (traces db) = []"
    using nb by (intro filter_none) simp
  have logRows: "filter (\<lambda>l. between start end (lg_Timestamp l)
                              \<and> in_services serviceNames (lg_ServiceName l)) (logs db) = []"
    using no_logs by (intro filter_none) simp
  have windowed: "filter (\<lambda>t. in_window start end (tr_Timestamp t)) (traces db) = []"
    using no_traces by (intro filter_none) simp
  have dash: "GetDashboardStats db start end serviceNames =
           (if CountTraces \<in> failing db then Inl (QueryFailed CountTraces)
            else if CountLogs \<in> failing db then Inl (QueryFailed CountLogs)
            else if CountErrors \<in> failing db then Inl (QueryFailed CountErrors)
            else if CountServices \<in> failing db then Inl (QueryFailed CountServices)
            else if Durations \<in> failing db then Inl (QueryFailed Durations)
            else Inr zero_stats)"
    by (simp add: GetDashboardStats_def base logRows Let_def avg_duration_def svcCounts_def
        zero_stats_def)
  have traffic: "GetTrafficMetrics db start end serviceNames =
           (if TrafficRows \<in> failing db then Inl (QueryFailed TrafficRows) else Inr NilSlice)"
    by (simp add: GetTrafficMetrics_def base sort_points_def)
  have smap: "GetServiceMapMetrics db start end =
           (if NodeRows \<in> failing db then Inl (QueryFailed NodeRows)
            else if SpanRows \<in> failing db then Inl (QueryFailed SpanRows)
            else if TraceInfos \<in> failing db then Inl (QueryFailed TraceInfos)
            else Inr \<lparr>Nodes = Slice [], Edges = Slice []\<rparr>)"
    by (simp add: GetServiceMapMetrics_def tiQuery_def windowed nodeRows_def
        traceServiceMap_def edgeAgg_def)
  have enc: "DashboardStats_json fl zero_stats =
           JObj [(''total_traces'', JNum 0), (''total_logs'', JNum 0), (''total_errors'', JNum 0),
                 (''avg_latency_ms'', fl 0), (''error_rate'', fl 0),
                 (''active_services'', JNum 0), (''p99_latency'', JNum 0),
                 (''top_failing_services'', JNull)]"
    "len (ds_TopFailingServices zero_stats) = 0"
    "len (NilSlice :: TrafficPoint slice) = 0"
    "slice_json (TrafficPoint_json tm) NilSlice = JNull"
    "ServiceMapMetrics_json fl \<lparr>Nodes = Slice [], Edges = Slice []\<rparr> =
           JObj [(''nodes'', JArr []), (''edges'', JArr [])]"
    by (simp_all add: DashboardStats_json_def zero_stats_def slice_json_def len_def
        ServiceMapMetrics_json_def)
  from dash traffic smap enc show ?thesis by (intro conjI)
qed

text \<open>
  The claim as first stated fails: on a store without rows the payload of the dashboard
  aggregates has \<^verbatim>\<open>null\<close> under \<^verbatim>\<open>top_failing_services\<close>, and the traffic series is
  \<^verbatim>\<open>null\<close>; neither is an empty array.
\<close>

theorem empty_snapshot_arrays_counterexample:
  "map_sum id (DashboardStats_json whole_float) (GetDashboardStats empty_db 1 60 [])
     = Inr (JObj [(''total_traces'', JNum 0), (''total_logs'', JNum 0), (''total_errors'', JNum 0),
                  (''avg_latency_ms'', JNum 0), (''error_rate'', JNum 0),
                  (''active_services'', JNum 0), (''p99_latency'', JNum 0),
                  (''top_failing_services'', JNull)])
   \<and> map_sum id (slice_json (TrafficPoint_json JNum)) (GetTrafficMetrics empty_db 1 60 [])
     = Inr JNull
   \<and> JNull \<noteq> JArr []"
  by (simp add: GetDashboardStats_def GetTrafficMetrics_def empty_db_def Let_def
      avg_duration_def svcCounts_def zero_stats_def sort_points_def DashboardStats_json_def
      slice_json_def whole_float_def)

theorem empty_window_snapshot_witness:
  "traces late_db \<noteq> [] \<and> logs late_db \<noteq> []
   \<and> GetDashboardStats late_db 1 60 [] = Inr zero_stats
   \<and> GetTrafficMetrics late_db 1 60 [''cart''] = Inr NilSlice
   \<and> GetServiceMapMetrics late_db 1 60 = Inr \<lparr>Nodes = Slice [], Edges = Slice []\<rparr>
   \<and> ds_TotalTraces zero_stats = 0 \<and> ds_ErrorRate zero_stats = 0
   \<and> ds_TopFailingServices zero_stats = NilSlice"
proof -
  have t: "\<forall>t\<in>set (traces late_db). \<not> in_window 1 60 (tr_Timestamp t)"
    and l: "\<forall>l\<in>set (logs late_db). \<not> between 1 60 (lg_Timestamp l)"
    by (simp_all add: late_db_def row_def in_window_def IsZero_def zero_time_def between_def)
  have f: "failing late_db = {}" "traces late_db \<noteq> []" "logs late_db \<noteq> []"
    by (simp_all add: late_db_def)
  have z: "ds_TotalTraces zero_stats = 0" "ds_ErrorRate zero_stats = 0"
    "ds_TopFailingServices zero_stats = NilSlice"
    by (simp_all add: zero_stats_def)
  from empty_window_snapshot [OF t l, of "[]"] empty_window_snapshot [OF t l, of "[''cart'']"] f z
  show ?thesis by simp
qed

end
